theory Spec2Isabelle
  imports Main "HOL-Library.AList"
begin

section \<open>Exceptions and external calls\<close>

text \<open>
  The exceptions that the modelled code can meet. \<open>KeyError\<close> is raised by a
  dictionary subscript on a missing key, \<open>FileNotFoundError\<close> and
  \<open>IsADirectoryError\<close> by \<open>Path.read_text\<close>; \<open>ExternalError\<close> stands for
  any \<open>Exception\<close> raised inside a collaborator (capture, analysis, integrator,
  \<open>json.dumps\<close>, \<open>str\<close>, \<open>Path.write_text\<close>, the factories, a \<open>print\<close> to
  a standard output that refuses the text). \<open>KeyboardInterrupt\<close> stands for an
  interrupt from the keyboard that nothing catches: raised in the running code, or
  delivered by \<open>asyncio.run\<close> as the cancellation of the main task, after which
  \<open>asyncio.run\<close> itself raises \<open>KeyboardInterrupt\<close>. It is not an
  \<open>Exception\<close>, so no \<open>except Exception\<close> catches it.
\<close>

datatype py_error =
  KeyError | FileNotFoundError | IsADirectoryError | ExternalError | KeyboardInterrupt

text \<open>
  A call into a collaborator either returns a value or raises an \<open>Exception\<close>.
  Which of the two happens is not decided by the code under \<open>src/\<close>, so it is a
  parameter of every operation.
\<close>

datatype 'a outcome = Returns 'a | Raises

section \<open>inframe/recorder.py: the data model\<close>

type_synonym recorder_id = string
type_synonym path = string

datatype RecordingMode = full_screen | window_only

text \<open>
  Modelled from the spec: the classes \<open>VideoStream\<close>, \<open>TranscriptionPipeline\<close>
  and the context integrator live in \<open>src.video_stream\<close>,
  \<open>src.transcription_pipeline\<close> and \<open>src.context_integrator\<close>, which are not
  among the sources. The spec gives each of them a start and a stop; a handle is
  therefore abstracted to whether its stage is currently started. A start call that
  returns successfully leaves the stage \<open>Started\<close>, a stop call that returns leaves
  it \<open>Stopped\<close>, and a call that raises (or a \<open>start_stream\<close> that returns
  \<open>False\<close>) leaves the stage as it was.
\<close>

datatype stage = Stopped | Started

record RecorderConfig =
  include_apps :: "string list option"
  recording_mode :: RecordingMode
  visual_task :: "string option"
  video_stream :: stage
  transcription_pipeline :: stage
  is_recording :: bool

text \<open>
  The object state of \<open>ContextRecorder\<close>. \<open>recorders\<close> is the dictionary
  \<open>self.recorders\<close> in insertion order; \<open>self_is_recording\<close> is the attribute
  \<open>self.is_recording\<close> (renamed, since the configuration has a field of that
  name too).
\<close>

record ContextRecorder =
  cache_file :: path
  recorders :: "(recorder_id \<times> RecorderConfig) list"
  self_is_recording :: bool
  active_recorders :: int
  context_integrator :: stage

text \<open>
  What the collaborators answer during one operation. The capture and analysis
  handles are owned by one configuration each, so their answers are indexed by the
  recorder id.
\<close>

record collaborators =
  start_stream :: "recorder_id \<Rightarrow> bool outcome"
  start_pipeline :: "recorder_id \<Rightarrow> unit outcome"
  start_integrator :: "unit outcome"
  stop_pipeline :: "recorder_id \<Rightarrow> unit outcome"
  stop_stream :: "recorder_id \<Rightarrow> unit outcome"

section \<open>inframe/recorder.py: the operations\<close>

text \<open>\<open>ContextRecorder.__init__\<close>: nothing is recording and the registry is empty.\<close>

definition init :: "path \<Rightarrow> ContextRecorder" where
  "init cf = \<lparr>cache_file = cf, recorders = [], self_is_recording = False,
     active_recorders = 0, context_integrator = Stopped\<rparr>"

text \<open>
  \<open>add_recorder\<close>: the id is the string of a fresh \<open>uuid.uuid4()\<close>, passed in
  here as \<open>rid\<close>. The remaining keyword arguments of the source only reach the
  two factories and are not stored.
\<close>

definition add_recorder ::
  "recorder_id \<Rightarrow> string list option \<Rightarrow> RecordingMode \<Rightarrow> string option \<Rightarrow>
   ContextRecorder \<Rightarrow> recorder_id \<times> ContextRecorder" where
  "add_recorder rid apps mode task self =
     (let config = \<lparr>include_apps = apps, recording_mode = mode, visual_task = task,
                     video_stream = Stopped, transcription_pipeline = Stopped,
                     is_recording = False\<rparr>
      in (rid, self\<lparr>recorders := AList.update rid config (recorders self)\<rparr>))"

text \<open>Writing through the alias \<open>config = self.recorders[recorder_id]\<close>.\<close>

definition set_config :: "recorder_id \<Rightarrow> RecorderConfig \<Rightarrow> ContextRecorder \<Rightarrow> ContextRecorder" where
  "set_config rid config self = self\<lparr>recorders := AList.update rid config (recorders self)\<rparr>"

text \<open>
  \<open>start\<close>: every exception is caught by the \<open>except Exception\<close> of the
  source, so the result is a plain boolean together with the state left behind.
\<close>

definition start :: "collaborators \<Rightarrow> recorder_id \<Rightarrow> ContextRecorder \<Rightarrow> bool \<times> ContextRecorder" where
  "start env rid self =
     (case map_of (recorders self) rid of
        None \<Rightarrow> (False, self)
      | Some config \<Rightarrow>
          (case start_stream env rid of
             Raises \<Rightarrow> (False, self)
           | Returns success \<Rightarrow>
               if \<not> success then (False, self)
               else
                 let config1 = config\<lparr>video_stream := Started\<rparr>;
                     self1 = set_config rid config1 self
                 in (case start_pipeline env rid of
                       Raises \<Rightarrow> (False, self1)
                     | Returns _ \<Rightarrow>
                         let config2 = config1\<lparr>transcription_pipeline := Started\<rparr>;
                             self2 = set_config rid config2 self1
                         in (case start_integrator env of
                               Raises \<Rightarrow> (False, self2)
                             | Returns _ \<Rightarrow>
                                 let self3 = self2\<lparr>context_integrator := Started\<rparr>;
                                     self4 = set_config rid (config2\<lparr>is_recording := True\<rparr>) self3;
                                     self5 = self4\<lparr>self_is_recording := True\<rparr>
                                 in (True, self5\<lparr>active_recorders := active_recorders self5 + 1\<rparr>)))))"

text \<open>
  \<open>stop\<close>: the subscript \<open>self.recorders[recorder_id]\<close> of the first line
  stands outside the \<open>try\<close>, so an unknown id raises \<open>KeyError\<close> to the caller.
  Everything after it is caught.
\<close>

definition stop :: "collaborators \<Rightarrow> recorder_id \<Rightarrow> ContextRecorder \<Rightarrow> py_error + ContextRecorder" where
  "stop env rid self =
     (case map_of (recorders self) rid of
        None \<Rightarrow> Inl KeyError
      | Some config \<Rightarrow>
          if \<not> is_recording config then Inr self
          else
            (case stop_pipeline env rid of
               Raises \<Rightarrow> Inr self
             | Returns _ \<Rightarrow>
                 let config1 = config\<lparr>transcription_pipeline := Stopped\<rparr>;
                     self1 = set_config rid config1 self
                 in (case stop_stream env rid of
                       Raises \<Rightarrow> Inr self1
                     | Returns _ \<Rightarrow>
                         let config2 = config1\<lparr>video_stream := Stopped\<rparr>;
                             self2 = set_config rid (config2\<lparr>is_recording := False\<rparr>) self1;
                             self3 = self2\<lparr>active_recorders := active_recorders self2 - 1\<rparr>
                         in Inr (if active_recorders self3 = 0
                                 then self3\<lparr>self_is_recording := False\<rparr> else self3))))"

text \<open>
  The \<open>for\<close> loop of \<open>shutdown\<close> over the snapshot \<open>list(self.recorders.keys())\<close>.
  The test \<open>self.recorders[recorder_id].is_recording\<close> is outside the \<open>try\<close>;
  an exception of \<open>stop\<close> itself is caught and the loop goes on.
\<close>

fun shutdown_loop :: "collaborators \<Rightarrow> recorder_id list \<Rightarrow> ContextRecorder \<Rightarrow> py_error + ContextRecorder" where
  "shutdown_loop env [] self = Inr self"
| "shutdown_loop env (rid # rest) self =
     (case map_of (recorders self) rid of
        None \<Rightarrow> Inl KeyError
      | Some config \<Rightarrow>
          if is_recording config then
            (case stop env rid self of
               Inl e \<Rightarrow> shutdown_loop env rest self
             | Inr self' \<Rightarrow> shutdown_loop env rest self')
          else shutdown_loop env rest self)"

definition shutdown :: "collaborators \<Rightarrow> ContextRecorder \<Rightarrow> py_error + ContextRecorder" where
  "shutdown env self =
     (case shutdown_loop env (map fst (recorders self)) self of
        Inl e \<Rightarrow> Inl e
      | Inr self' \<Rightarrow> Inr (self'\<lparr>self_is_recording := False, active_recorders := 0\<rparr>))"

text \<open>
  The active flag of a session as \<open>get_status\<close> reports it in its first two
  branches: \<open>False\<close> for an unknown id and for a configuration whose
  \<open>is_recording\<close> is \<open>False\<close>.
\<close>

definition session_active :: "ContextRecorder \<Rightarrow> recorder_id \<Rightarrow> bool" where
  "session_active self rid =
     (case map_of (recorders self) rid of None \<Rightarrow> False | Some config \<Rightarrow> is_recording config)"

text \<open>
  What one call of \<open>stop\<close> leaves of the configuration of a known session, read
  off the branches of \<open>stop\<close>.
\<close>

definition stopped_config :: "collaborators \<Rightarrow> recorder_id \<Rightarrow> RecorderConfig \<Rightarrow> RecorderConfig" where
  "stopped_config env rid config =
     (if \<not> is_recording config then config
      else if stop_pipeline env rid = Raises then config
      else if stop_stream env rid = Raises then config\<lparr>transcription_pipeline := Stopped\<rparr>
      else config\<lparr>transcription_pipeline := Stopped, video_stream := Stopped,
                   is_recording := False\<rparr>)"

section \<open>Sequences of registry operations\<close>

text \<open>
  A caller that issues registry operations one after the other. Each operation
  carries the answers the collaborators give while it runs. An exception that
  reaches the caller (\<open>KeyError\<close> from \<open>stop\<close>) leaves the object as it was, and
  the caller goes on.
\<close>

datatype op =
    AddRecorder recorder_id "string list option" RecordingMode "string option"
  | Start collaborators recorder_id
  | Stop collaborators recorder_id
  | Shutdown collaborators

fun apply_op :: "op \<Rightarrow> ContextRecorder \<Rightarrow> ContextRecorder" where
  "apply_op (AddRecorder rid apps mode task) self = snd (add_recorder rid apps mode task self)"
| "apply_op (Start env rid) self = snd (start env rid self)"
| "apply_op (Stop env rid) self = (case stop env rid self of Inl e \<Rightarrow> self | Inr self' \<Rightarrow> self')"
| "apply_op (Shutdown env) self = (case shutdown env self of Inl e \<Rightarrow> self | Inr self' \<Rightarrow> self')"

fun run :: "op list \<Rightarrow> ContextRecorder \<Rightarrow> ContextRecorder" where
  "run [] self = self"
| "run (x # xs) self = run xs (apply_op x self)"

text \<open>The number of configurations whose \<open>is_recording\<close> is \<open>True\<close>.\<close>

definition count_active :: "(recorder_id \<times> RecorderConfig) list \<Rightarrow> nat" where
  "count_active al = length (filter (\<lambda>kc. is_recording (snd kc)) al)"

definition registry_inv :: "ContextRecorder \<Rightarrow> bool" where
  "registry_inv self =
     (active_recorders self = int (count_active (recorders self)) \<and>
      (self_is_recording self = (0 < active_recorders self)))"

text \<open>
  The operations under which the count is kept: \<open>uuid4\<close> hands out an id that is
  not in the registry yet, \<open>start\<close> is not repeated on a session that is already
  recording, and during \<open>shutdown\<close> both stop calls of every recording session
  return.
\<close>

fun op_ok :: "op \<Rightarrow> ContextRecorder \<Rightarrow> bool" where
  "op_ok (AddRecorder rid apps mode task) self = (rid \<notin> set (map fst (recorders self)))"
| "op_ok (Start env rid) self = (\<not> session_active self rid)"
| "op_ok (Stop env rid) self = True"
| "op_ok (Shutdown env) self =
     list_all (\<lambda>rid. \<not> session_active self rid \<or>
                 (stop_pipeline env rid = Returns () \<and> stop_stream env rid = Returns ()))
       (map fst (recorders self))"

fun admissible :: "op list \<Rightarrow> ContextRecorder \<Rightarrow> bool" where
  "admissible [] self = True"
| "admissible (x # xs) self = (op_ok x self \<and> admissible xs (apply_op x self))"

section \<open>The cache file\<close>

text \<open>
  The file store as \<open>pathlib\<close> sees it on a POSIX system: a path names nothing,
  a regular text file or a directory. A regular file holds the characters that
  were written to it. \<open>Path.exists\<close> is true of both kinds.
\<close>

datatype node = RegularFile string | Directory

type_synonym filesystem = "path \<Rightarrow> node option"

definition path_exists :: "filesystem \<Rightarrow> path \<Rightarrow> bool" where
  "path_exists fs p = (fs p \<noteq> None)"

text \<open>
  Reading in text mode translates line ends (\<open>newline=None\<close>): a carriage return
  followed by a line feed, and a carriage return alone, both come back as one line
  feed.
\<close>

fun universal_newlines :: "string \<Rightarrow> string" where
  "universal_newlines [] = []"
| "universal_newlines [c] = (if c = CHR 0x0D then [CHR 0x0A] else [c])"
| "universal_newlines (c # d # ds) =
     (if c = CHR 0x0D then
        (if d = CHR 0x0A then CHR 0x0A # universal_newlines ds
         else CHR 0x0A # universal_newlines (d # ds))
      else c # universal_newlines (d # ds))"

text \<open>\<open>Path.read_text\<close> raises on a missing path and on a directory.\<close>

definition read_text :: "filesystem \<Rightarrow> path \<Rightarrow> py_error + string" where
  "read_text fs p =
     (case fs p of
        None \<Rightarrow> Inl FileNotFoundError
      | Some Directory \<Rightarrow> Inl IsADirectoryError
      | Some (RegularFile content) \<Rightarrow> Inr (universal_newlines content))"

text \<open>
  \<open>Path.write_text\<close> opens the file with mode \<open>w\<close> and then writes. A
  directory cannot be opened. Whether the open and the write go through is for the
  operating system to decide (\<open>os_open\<close>, \<open>os_write\<close>). An open that raises
  leaves the store as it was; a successful open truncates the file, so a write that
  raises after it leaves an empty file; a write that goes through replaces the whole
  content. The result is the exception, if any, together with the store left
  behind.
\<close>

definition write_text ::
  "unit outcome \<Rightarrow> unit outcome \<Rightarrow> filesystem \<Rightarrow> path \<Rightarrow> string \<Rightarrow>
   (py_error + unit) \<times> filesystem" where
  "write_text os_open os_write fs p content =
     (case fs p of
        Some Directory \<Rightarrow> (Inl IsADirectoryError, fs)
      | _ \<Rightarrow> (case os_open of
                Raises \<Rightarrow> (Inl ExternalError, fs)
              | Returns _ \<Rightarrow>
                  (case os_write of
                     Raises \<Rightarrow> (Inl ExternalError, fs(p \<mapsto> RegularFile []))
                   | Returns _ \<Rightarrow> (Inr (), fs(p \<mapsto> RegularFile content)))))"

subsection \<open>recorder.py: \<open>_on_context_update\<close>\<close>

text \<open>The values the integrator may hand back as the current context.\<close>

datatype py_value =
    PyStr string
  | PyDict "(string \<times> py_value) list"
  | PyList "py_value list"
  | PyInt int
  | PyNone

text \<open>
  The external calls of the callback: the integrator's \<open>get_current_context\<close>,
  \<open>json.dumps(\<cdot>, indent=2)\<close>, the builtin \<open>str\<close>, and the open and the write
  of \<open>Path.write_text\<close>.
\<close>

record cache_env =
  get_current_context :: "py_value outcome"
  json_dumps :: "py_value \<Rightarrow> string outcome"
  py_str :: "py_value \<Rightarrow> string outcome"
  os_open_text :: "unit outcome"
  os_write_text :: "unit outcome"

definition raise_or :: "'a outcome \<Rightarrow> py_error + 'a" where
  "raise_or r = (case r of Raises \<Rightarrow> Inl ExternalError | Returns v \<Rightarrow> Inr v)"

text \<open>The \<open>isinstance\<close> chain that makes a string of the current context.\<close>

definition ensure_string :: "cache_env \<Rightarrow> py_value \<Rightarrow> py_error + string" where
  "ensure_string env current_context =
     (case current_context of
        PyDict d \<Rightarrow> raise_or (json_dumps env current_context)
      | PyStr s \<Rightarrow> Inr s
      | _ \<Rightarrow> raise_or (py_str env current_context))"

text \<open>The body of the \<open>try\<close> block: the exception it ends in, if any, and the
  store it leaves behind.\<close>

definition export_context ::
  "cache_env \<Rightarrow> ContextRecorder \<Rightarrow> filesystem \<Rightarrow> (py_error + unit) \<times> filesystem" where
  "export_context env self fs =
     (case get_current_context env of
        Raises \<Rightarrow> (Inl ExternalError, fs)
      | Returns current_context \<Rightarrow>
          (case ensure_string env current_context of
             Inl e \<Rightarrow> (Inl e, fs)
           | Inr text \<Rightarrow>
               write_text (os_open_text env) (os_write_text env) fs (cache_file self) text))"

text \<open>
  The callback itself. Its argument \<open>context_update\<close> is never read; the
  \<open>except Exception\<close> branch only prints.
\<close>

definition on_context_update ::
  "py_value \<Rightarrow> cache_env \<Rightarrow> ContextRecorder \<Rightarrow> filesystem \<Rightarrow> py_error + (ContextRecorder \<times> filesystem)" where
  "on_context_update context_update env self fs =
     (case export_context env self fs of
        (Inl e, fs') \<Rightarrow> Inr (self, fs')
      | (Inr u, fs') \<Rightarrow> Inr (self, fs'))"

subsection \<open>Decimal numbers and dates in strings\<close>

fun digit_char :: "nat \<Rightarrow> char" where
  "digit_char n = char_of (48 + n)"

fun str_nat :: "nat \<Rightarrow> string" where
  "str_nat n = (if n < 10 then [digit_char n] else str_nat (n div 10) @ [digit_char (n mod 10)])"

text \<open>A calendar day, as \<open>datetime.now()\<close> gives it.\<close>

record date =
  year :: nat
  month :: nat
  day :: nat

definition zero_pad :: "nat \<Rightarrow> nat \<Rightarrow> string" where
  "zero_pad width n = replicate (width - length (str_nat n)) (CHR ''0'') @ str_nat n"

text \<open>\<open>strftime('%Y%m%d')\<close> and \<open>strftime('%d%m%Y')\<close>, for the years 1000 to 9999
  (\<open>%Y\<close> has four digits there on every platform).\<close>

definition strftime_Ymd :: "date \<Rightarrow> string" where
  "strftime_Ymd d = zero_pad 4 (year d) @ zero_pad 2 (month d) @ zero_pad 2 (day d)"

definition strftime_dmY :: "date \<Rightarrow> string" where
  "strftime_dmY d = zero_pad 2 (day d) @ zero_pad 2 (month d) @ zero_pad 4 (year d)"

text \<open>\<open>Path.home() / rel\<close>.\<close>

definition under_home :: "path \<Rightarrow> string \<Rightarrow> path" where
  "under_home home rel = home @ ''/'' @ rel"

subsection \<open>local-inframe/context_mcp_server.py and context_mcp_server_network.py\<close>

text \<open>The module-level \<open>cache_file\<close>, the same expression in both servers.\<close>

definition server_cache_file :: "path \<Rightarrow> date \<Rightarrow> path" where
  "server_cache_file home today = under_home home (''.cache/inframe/'' @ strftime_dmY today)"

definition network_server_cache_file :: "path \<Rightarrow> date \<Rightarrow> path" where
  "network_server_cache_file home today = under_home home (''.cache/inframe/'' @ strftime_dmY today)"

definition no_context_available :: string where
  "no_context_available =
     ''No screen context available. Run '' @ [CHR 0x27] @ ''python local_context_recorder.py'' @
     [CHR 0x27] @ '' to record some context.''"

text \<open>The tools take the module-level \<open>cache_file\<close> as their first argument.\<close>

definition get_latest_screen_context :: "path \<Rightarrow> filesystem \<Rightarrow> py_error + string" where
  "get_latest_screen_context cf fs =
     (if path_exists fs cf then read_text fs cf else Inr no_context_available)"

text \<open>\<open>str.split(sep)\<close> for a one-character separator, and \<open>str.startswith\<close>.\<close>

fun split_on :: "char \<Rightarrow> string \<Rightarrow> string list" where
  "split_on sep [] = [[]]"
| "split_on sep (c # cs) =
     (if c = sep then [] # split_on sep cs
      else (case split_on sep cs of
              [] \<Rightarrow> [[c]]
            | l # ls \<Rightarrow> (c # l) # ls))"

definition startswith :: "string \<Rightarrow> string \<Rightarrow> bool" where
  "startswith s p = (take (length p) s = p)"

text \<open>The loop that keeps the last line starting with the session marker.\<close>

fun most_recent_session :: "string list \<Rightarrow> string option \<Rightarrow> string option" where
  "most_recent_session [] recent_session = recent_session"
| "most_recent_session (line # lines) recent_session =
     most_recent_session lines
       (if startswith line ''NEW RECORDING SESSION'' then Some line else recent_session)"

definition check_screen_context_status :: "path \<Rightarrow> filesystem \<Rightarrow> py_error + string" where
  "check_screen_context_status cf fs =
     (if path_exists fs cf then
        (case read_text fs cf of
           Inl e \<Rightarrow> Inl e
         | Inr content \<Rightarrow>
             (case most_recent_session (split_on (CHR 0x0A) content) None of
                Some (c # cs) \<Rightarrow>
                  Inr (''Screen context is available. '' @ (c # cs) @ [CHR 0x0A] @
                       ''Total content length: '' @ str_nat (length content) @ '' characters'')
              | _ \<Rightarrow>
                  Inr (''Screen context file exists but no sessions found. Content length: '' @
                       str_nat (length content) @ '' characters'')))
      else Inr no_context_available)"

subsection \<open>local-inframe/local_context_recorder.py\<close>

text \<open>The default of \<open>--cache-file\<close>, and the default of \<open>ContextRecorder\<close> itself.\<close>

definition cli_default_cache_file :: "path \<Rightarrow> date \<Rightarrow> path" where
  "cli_default_cache_file home today = under_home home (''.cache/inframe/'' @ strftime_Ymd today)"

definition recorder_default_cache_file :: "path \<Rightarrow> path" where
  "recorder_default_cache_file home = under_home home ''.cache/inframe''"

record args =
  arg_duration :: int
  arg_include_apps :: "string list"
  arg_recording_mode :: RecordingMode
  arg_visual_task :: string
  arg_print_context :: bool
  arg_cache_file :: path

text \<open>
  Whether and where an interrupt from the keyboard reaches a run of the CLI: not at
  all; while \<open>start\<close> runs; during the sleep, raised inside the coroutine, where
  the \<open>except KeyboardInterrupt\<close> around the sleep catches it; during the sleep,
  as the cancellation of the main task, which that \<open>except\<close> does not catch; or
  after the sleep, while \<open>stop\<close> and the final prints run.
\<close>

datatype interrupt = NoInterrupt | DuringStart | CaughtInSleep | DuringSleep | AfterSleep

text \<open>
  What the surroundings of one run of the CLI answer: whether the constructor of
  \<open>ContextRecorder\<close> and the two factories of \<open>add_recorder\<close> return, the
  \<open>uuid4\<close> drawn, whether standard output takes what is printed, the
  collaborators' answers during \<open>start\<close> and \<open>stop\<close>, and the interrupt, if
  any.
\<close>

record cli_env =
  construct :: "unit outcome"
  uuid4 :: recorder_id
  create_handles :: "unit outcome"
  stdout :: "unit outcome"
  during_start :: collaborators
  interrupt :: interrupt
  during_stop :: collaborators

text \<open>
  What \<open>main_async\<close> did when it returns: it printed \<open>Failed to start recording.\<close>
  and returned, or it ran to its last line, with or without the
  \<open>Interrupted by user.\<close> branch.
\<close>

datatype cli_run = FailedToStart | Completed | CompletedAfterInterrupt

text \<open>
  \<open>main_async\<close>. With a standard output that raises, the first \<open>print\<close> of
  \<open>recorder.start\<close> raises inside its \<open>try\<close>, the \<open>print\<close> of its handler
  raises again, and the exception leaves \<open>start\<close> and \<open>main_async\<close> before any
  collaborator is called. With a standard output that takes the text, \<open>start\<close>
  and \<open>stop\<close> are as above, and the printing of the cached context at the end is
  inside its own \<open>try\<close>. An interrupt that is not caught leaves \<open>main_async\<close>.
\<close>

definition main_async :: "cli_env \<Rightarrow> args \<Rightarrow> py_error + cli_run" where
  "main_async env a =
     (case construct env of
        Raises \<Rightarrow> Inl ExternalError
      | Returns _ \<Rightarrow>
          let recorder = init (arg_cache_file a) in
          (case create_handles env of
             Raises \<Rightarrow> Inl ExternalError
           | Returns _ \<Rightarrow>
               let (recorder_id, recorder1) =
                     add_recorder (uuid4 env) (Some (arg_include_apps a)) (arg_recording_mode a)
                       (Some (arg_visual_task a)) recorder
               in (case stdout env of
                     Raises \<Rightarrow> Inl ExternalError
                   | Returns _ \<Rightarrow>
                       if interrupt env = DuringStart then Inl KeyboardInterrupt
                       else
                         let (started, recorder2) = start (during_start env) recorder_id recorder1
                         in if \<not> started then Inr FailedToStart
                            else if interrupt env = DuringSleep \<or> interrupt env = AfterSleep
                              then Inl KeyboardInterrupt
                            else (case stop (during_stop env) recorder_id recorder2 of
                                    Inl e \<Rightarrow> Inl e
                                  | Inr recorder3 \<Rightarrow>
                                      Inr (if interrupt env = CaughtInSleep
                                           then CompletedAfterInterrupt else Completed)))))"

text \<open>
  \<open>parser.parse_args()\<close> hands over the arguments, or ends the process itself:
  with status 2 after a usage error, with status 0 after \<open>--help\<close>.
\<close>

datatype parse_result = Parsed args | UsageError | HelpRequested

text \<open>
  \<open>main\<close> under the interpreter: the process ends with status 0 when
  \<open>asyncio.run(main_async(args))\<close> returns, with status 130 when an interrupt
  from the keyboard ends the run, and with status 1 when another exception leaves
  it. The script never calls
  \<open>sys.exit\<close>.
\<close>

definition main :: "cli_env \<Rightarrow> parse_result \<Rightarrow> nat" where
  "main env parsed =
     (case parsed of
        UsageError \<Rightarrow> 2
      | HelpRequested \<Rightarrow> 0
      | Parsed a \<Rightarrow>
          (case main_async env a of
             Inl KeyboardInterrupt \<Rightarrow> 130
           | Inl e \<Rightarrow> 1
           | Inr r \<Rightarrow> 0))"

section \<open>Sample states and answers\<close>

text \<open>Collaborators that answer every call successfully.\<close>

definition all_return :: collaborators where
  "all_return = \<lparr>start_stream = (\<lambda>rid. Returns True), start_pipeline = (\<lambda>rid. Returns ()),
     start_integrator = Returns (), stop_pipeline = (\<lambda>rid. Returns ()),
     stop_stream = (\<lambda>rid. Returns ())\<rparr>"

text \<open>The analysis pipeline fails to start; the analysis pipeline of session \<open>a\<close>
  fails to stop.\<close>

definition analysis_start_raises :: collaborators where
  "analysis_start_raises = all_return\<lparr>start_pipeline := (\<lambda>rid. Raises)\<rparr>"

definition stop_of_a_raises :: collaborators where
  "stop_of_a_raises =
     all_return\<lparr>stop_pipeline := (\<lambda>rid. if rid = ''a'' then Raises else Returns ())\<rparr>"

definition idle_config :: RecorderConfig where
  "idle_config = \<lparr>include_apps = None, recording_mode = full_screen, visual_task = None,
     video_stream = Stopped, transcription_pipeline = Stopped, is_recording = False\<rparr>"

definition recording_config :: RecorderConfig where
  "recording_config = \<lparr>include_apps = None, recording_mode = full_screen, visual_task = None,
     video_stream = Started, transcription_pipeline = Started, is_recording = True\<rparr>"

text \<open>A registry with two recording sessions \<open>a\<close> and \<open>b\<close>.\<close>

definition two_recording :: ContextRecorder where
  "two_recording = \<lparr>cache_file = ''/home/u/.cache/inframe'',
     recorders = [(''a'', recording_config), (''b'', recording_config)],
     self_is_recording = True, active_recorders = 2, context_integrator = Started\<rparr>"

text \<open>The capture stream answers \<open>False\<close> to \<open>start_stream\<close>.\<close>

definition capture_refuses :: collaborators where
  "capture_refuses = all_return\<lparr>start_stream := (\<lambda>rid. Returns False)\<rparr>"

text \<open>A registry with one session \<open>a\<close> that was added and never started.\<close>

definition one_idle :: ContextRecorder where
  "one_idle = \<lparr>cache_file = ''/home/u/.cache/inframe'', recorders = [(''a'', idle_config)],
     self_is_recording = False, active_recorders = 0, context_integrator = Stopped\<rparr>"

text \<open>
  A run in which a start fails, a stop fails and is repeated, and a shutdown ends
  it.
\<close>

definition sample_ops :: "op list" where
  "sample_ops =
     [AddRecorder ''a'' None full_screen None, AddRecorder ''b'' None window_only None,
      Start all_return ''a'', Start analysis_start_raises ''b'', Stop stop_of_a_raises ''a'',
      Start all_return ''b'', Stop all_return ''a'', Shutdown all_return]"

text \<open>A store in which the servers' file of 3 November 2026 exists and is empty.\<close>

definition empty_cache_store :: filesystem where
  "empty_cache_store = (Map.empty(''/home/u/.cache/inframe/03112026'' \<mapsto> RegularFile []))"

text \<open>An integrator whose current context is a string, and one whose current context
  is the empty dictionary (\<open>json.dumps({}, indent=2)\<close> is \<open>{}\<close>).\<close>

definition pushes_text :: cache_env where
  "pushes_text = \<lparr>get_current_context = Returns (PyStr ''NEW RECORDING SESSION 1''),
     json_dumps = (\<lambda>v. Raises), py_str = (\<lambda>v. Raises), os_open_text = Returns (),
     os_write_text = Returns ()\<rparr>"

definition pushes_dict :: cache_env where
  "pushes_dict = \<lparr>get_current_context = Returns (PyDict []),
     json_dumps = (\<lambda>v. Returns ''{}''), py_str = (\<lambda>v. Raises), os_open_text = Returns (),
     os_write_text = Returns ()\<rparr>"

text \<open>An integrator whose current context has a line that ends in carriage return
  and line feed, and one whose current context is the list \<open>[1]\<close>
  (\<open>str([1])\<close> is \<open>[1]\<close>; \<open>json.dumps([1], indent=2)\<close> spreads it over three
  lines).\<close>

definition pushes_crlf :: cache_env where
  "pushes_crlf = \<lparr>get_current_context =
       Returns (PyStr (''line1'' @ [CHR 0x0D, CHR 0x0A] @ ''line2'')),
     json_dumps = (\<lambda>v. Raises), py_str = (\<lambda>v. Raises), os_open_text = Returns (),
     os_write_text = Returns ()\<rparr>"

definition pushes_list :: cache_env where
  "pushes_list = \<lparr>get_current_context = Returns (PyList [PyInt 1]),
     json_dumps = (\<lambda>v. Returns (''['' @ [CHR 0x0A] @ ''  1'' @ [CHR 0x0A] @ '']'')),
     py_str = (\<lambda>v. Returns ''[1]''), os_open_text = Returns (), os_write_text = Returns ()\<rparr>"

text \<open>Two runs of the CLI with the same arguments: in the first the capture stream
  refuses to start, in the second every call returns.\<close>

definition sample_args :: args where
  "sample_args = \<lparr>arg_duration = 30, arg_include_apps = [''Cursor''],
     arg_recording_mode = full_screen, arg_visual_task = ''Describe the screen content'',
     arg_print_context = False, arg_cache_file = ''/home/u/.cache/inframe/20261103''\<rparr>"

definition cli_capture_refuses :: cli_env where
  "cli_capture_refuses = \<lparr>construct = Returns (), uuid4 = ''0f8fad5b'', create_handles = Returns (),
     stdout = Returns (), during_start = capture_refuses, interrupt = NoInterrupt,
     during_stop = all_return\<rparr>"

definition cli_all_return :: cli_env where
  "cli_all_return = \<lparr>construct = Returns (), uuid4 = ''0f8fad5b'', create_handles = Returns (),
     stdout = Returns (), during_start = all_return, interrupt = NoInterrupt,
     during_stop = all_return\<rparr>"

section \<open>The registry: auxiliary facts\<close>

lemma set_config_simps:
  "recorders (set_config rid c self) = AList.update rid c (recorders self)"
  "active_recorders (set_config rid c self) = active_recorders self"
  "self_is_recording (set_config rid c self) = self_is_recording self"
  "context_integrator (set_config rid c self) = context_integrator self"
  "cache_file (set_config rid c self) = cache_file self"
  by (simp_all add: set_config_def)

lemma map_of_set_config:
  "map_of (recorders (set_config k c self)) x = (if x = k then Some c else map_of (recorders self) x)"
  by (simp add: set_config_def update_conv')

lemma keys_update_known:
  "map_of al k = Some c \<Longrightarrow> map fst (AList.update k v al) = map fst al"
  by (induction al) (auto split: if_splits)

lemma count_active_update:
  "map_of al k = Some c \<Longrightarrow>
   count_active (AList.update k c' al) + (if is_recording c then 1 else 0) =
   count_active al + (if is_recording c' then 1 else 0)"
  by (induction al) (auto simp: count_active_def split: if_splits)

lemma count_active_update_fresh:
  "map_of al k = None \<Longrightarrow>
   count_active (AList.update k c' al) = count_active al + (if is_recording c' then 1 else 0)"
  by (induction al) (auto simp: count_active_def split: if_splits)

lemma count_same:
  "map_of al k = Some c \<Longrightarrow> is_recording c' = is_recording c \<Longrightarrow>
   count_active (AList.update k c' al) = count_active al"
  using count_active_update [of al k c c'] by simp

lemma count_up:
  "map_of al k = Some c \<Longrightarrow> \<not> is_recording c \<Longrightarrow> is_recording c' \<Longrightarrow>
   count_active (AList.update k c' al) = Suc (count_active al)"
  using count_active_update [of al k c c'] by simp

lemma count_down:
  "map_of al k = Some c \<Longrightarrow> is_recording c \<Longrightarrow> \<not> is_recording c' \<Longrightarrow>
   count_active (AList.update k c' al) = count_active al - 1"
  using count_active_update [of al k c c'] by simp

lemma count_pos:
  "map_of al k = Some c \<Longrightarrow> is_recording c \<Longrightarrow> 0 < count_active al"
  by (induction al) (auto simp: count_active_def split: if_splits)

lemma count_all_inactive:
  "distinct (map fst al) \<Longrightarrow> \<forall>k\<in>set (map fst al). \<forall>c. map_of al k = Some c \<longrightarrow> \<not> is_recording c \<Longrightarrow>
   count_active al = 0"
  by (auto simp: count_active_def filter_empty_conv)

subsection \<open>Facts about \<open>stop\<close>\<close>

lemma stop_known_returns:
  "map_of (recorders self) rid = Some config \<Longrightarrow> \<exists>self'. stop env rid self = Inr self'"
  by (simp add: stop_def Let_def split: outcome.splits)

lemma stop_inactive_noop:
  "map_of (recorders self) rid = Some config \<Longrightarrow> \<not> is_recording config \<Longrightarrow>
   stop env rid self = Inr self"
  by (simp add: stop_def)

lemma stop_keys:
  "stop env rid self = Inr self' \<Longrightarrow> map fst (recorders self') = map fst (recorders self)"
  by (auto simp: stop_def Let_def set_config_simps keys_update_known update_conv'
      split: option.splits if_splits outcome.splits)

lemma stop_active_mono:
  "stop env rid self = Inr self' \<Longrightarrow> session_active self' x \<Longrightarrow> session_active self x"
  by (auto simp: stop_def Let_def map_of_set_config session_active_def
      split: option.splits if_splits outcome.splits)

lemma stop_returns_inactive:
  "stop env rid self = Inr self' \<Longrightarrow> stop_pipeline env rid = Returns () \<Longrightarrow>
   stop_stream env rid = Returns () \<Longrightarrow> \<not> session_active self' rid"
  by (auto simp: stop_def Let_def map_of_set_config session_active_def
      split: option.splits if_splits outcome.splits)

text \<open>With the same answers, a second \<open>stop\<close> changes nothing more; and \<open>stop\<close>
  raises exactly on the ids that are not in the registry.\<close>

lemma stop_twice:
  assumes "stop env rid self = Inr self'"
  shows "stop env rid self' = Inr self'"
proof (cases "map_of (recorders self) rid")
  case None
  then show ?thesis using assms by (simp add: stop_def)
next
  case (Some config)
  show ?thesis
  proof (cases "is_recording config")
    case False
    then show ?thesis using assms Some by (simp add: stop_def)
  next
    case True
    show ?thesis
    proof (cases "stop_pipeline env rid")
      case Raises
      then show ?thesis using assms Some True by (simp add: stop_def)
    next
      case (Returns u)
      show ?thesis
      proof (cases "stop_stream env rid")
        case Raises
        then show ?thesis using assms Some True Returns
          by (auto simp: stop_def Let_def set_config_def update_conv')
      next
        case (Returns v)
        then show ?thesis using assms Some True \<open>stop_pipeline env rid = Returns u\<close>
          by (auto simp: stop_def Let_def map_of_set_config set_config_simps(2-5))
      qed
    qed
  qed
qed

lemma stop_raises_iff_unknown:
  "(\<exists>e. stop env rid self = Inl e) = (map_of (recorders self) rid = None)"
  by (auto simp: stop_def Let_def split: option.splits outcome.splits)

subsection \<open>Facts about the loop of \<open>shutdown\<close>\<close>

text \<open>
  Over keys of the registry the loop never meets a missing key, keeps the keys,
  activates nothing, and leaves inactive every visited session whose two stop calls
  return.
\<close>

lemma shutdown_loop_returns:
  "set ks \<subseteq> set (map fst (recorders self)) \<Longrightarrow>
   \<exists>self'. shutdown_loop env ks self = Inr self' \<and>
     map fst (recorders self') = map fst (recorders self) \<and>
     (\<forall>x. session_active self' x \<longrightarrow> session_active self x) \<and>
     (\<forall>k\<in>set ks. stop_pipeline env k = Returns () \<and> stop_stream env k = Returns ()
          \<longrightarrow> \<not> session_active self' k)"
proof (induction ks arbitrary: self)
  case Nil
  then show ?case by simp
next
  case (Cons k ks)
  from Cons.prems have "k \<in> fst ` set (recorders self)" by simp
  then obtain config where known: "map_of (recorders self) k = Some config"
    by (metis map_of_eq_None_iff not_Some_eq)
  show ?case
  proof (cases "is_recording config")
    case False
    from Cons.prems have sub: "set ks \<subseteq> set (map fst (recorders self))" by simp
    from Cons.IH [OF sub] obtain self' where r: "shutdown_loop env ks self = Inr self'"
      and keys: "map fst (recorders self') = map fst (recorders self)"
      and mono: "\<forall>x. session_active self' x \<longrightarrow> session_active self x"
      and good: "\<forall>k\<in>set ks. stop_pipeline env k = Returns () \<and> stop_stream env k = Returns ()
          \<longrightarrow> \<not> session_active self' k"
      by blast
    have "\<not> session_active self k" using known False by (simp add: session_active_def)
    then have "\<not> session_active self' k" using mono by blast
    then show ?thesis using known False r keys mono good by simp
  next
    case True
    obtain self1 where s: "stop env k self = Inr self1"
      using stop_known_returns [OF known] by blast
    have keys1: "map fst (recorders self1) = map fst (recorders self)"
      by (rule stop_keys [OF s])
    from Cons.prems keys1 have sub: "set ks \<subseteq> set (map fst (recorders self1))" by simp
    from Cons.IH [OF sub] obtain self' where r: "shutdown_loop env ks self1 = Inr self'"
      and keys: "map fst (recorders self') = map fst (recorders self1)"
      and mono: "\<forall>x. session_active self' x \<longrightarrow> session_active self1 x"
      and good: "\<forall>k\<in>set ks. stop_pipeline env k = Returns () \<and> stop_stream env k = Returns ()
          \<longrightarrow> \<not> session_active self' k"
      by blast
    have mono': "\<forall>x. session_active self' x \<longrightarrow> session_active self x"
      using mono stop_active_mono [OF s] by blast
    have "stop_pipeline env k = Returns () \<and> stop_stream env k = Returns ()
          \<longrightarrow> \<not> session_active self' k"
      using stop_returns_inactive [OF s] mono by blast
    then show ?thesis using known True s r keys keys1 mono' good by simp
  qed
qed

text \<open>
  What the loop leaves of each configuration: every visited session has gone
  through \<open>stop\<close> once, and no record is added, dropped or moved.
\<close>

lemma stopped_config_idem:
  "stopped_config env rid (stopped_config env rid config) = stopped_config env rid config"
  by (simp add: stopped_config_def)

lemma stop_effect:
  assumes "map_of (recorders self) rid = Some config"
  shows "\<exists>self'. stop env rid self = Inr self' \<and>
     map_of (recorders self') rid = Some (stopped_config env rid config) \<and>
     (\<forall>x. x \<noteq> rid \<longrightarrow> map_of (recorders self') x = map_of (recorders self) x) \<and>
     map fst (recorders self') = map fst (recorders self) \<and>
     cache_file self' = cache_file self \<and> context_integrator self' = context_integrator self"
proof -
  have k: "map fst (AList.update rid c (recorders self)) = map fst (recorders self)" for c
    using assms by (rule keys_update_known)
  show ?thesis using assms
    by (cases "stop_pipeline env rid"; cases "stop_stream env rid")
      (simp_all add: stop_def stopped_config_def Let_def set_config_def update_conv' k)
qed

lemma shutdown_loop_effect:
  "set ks \<subseteq> set (map fst (recorders self)) \<Longrightarrow>
   \<exists>self'. shutdown_loop env ks self = Inr self' \<and>
     map fst (recorders self') = map fst (recorders self) \<and>
     cache_file self' = cache_file self \<and> context_integrator self' = context_integrator self \<and>
     (\<forall>x. map_of (recorders self') x =
        (if x \<in> set ks then map_option (stopped_config env x) (map_of (recorders self) x)
         else map_of (recorders self) x))"
proof (induction ks arbitrary: self)
  case Nil
  then show ?case by simp
next
  case (Cons k ks)
  from Cons.prems have "k \<in> fst ` set (recorders self)" by simp
  then obtain config where known: "map_of (recorders self) k = Some config"
    by (metis map_of_eq_None_iff not_Some_eq)
  show ?case
  proof (cases "is_recording config")
    case False
    then have same: "stopped_config env k config = config" by (simp add: stopped_config_def)
    from Cons.prems have sub: "set ks \<subseteq> set (map fst (recorders self))" by simp
    from Cons.IH [OF sub] obtain self' where r: "shutdown_loop env ks self = Inr self'"
      and keys: "map fst (recorders self') = map fst (recorders self)"
      and rest: "cache_file self' = cache_file self" "context_integrator self' = context_integrator self"
      and eff: "\<forall>x. map_of (recorders self') x =
        (if x \<in> set ks then map_option (stopped_config env x) (map_of (recorders self) x)
         else map_of (recorders self) x)"
      by blast
    have "map_of (recorders self') x =
        (if x \<in> set (k # ks) then map_option (stopped_config env x) (map_of (recorders self) x)
         else map_of (recorders self) x)" for x
      using eff [rule_format, of x] known same by (cases "x = k") auto
    then show ?thesis using known False r keys rest by simp
  next
    case True
    from stop_effect [OF known, of env] obtain self1 where s: "stop env k self = Inr self1"
      and here: "map_of (recorders self1) k = Some (stopped_config env k config)"
      and others: "\<forall>x. x \<noteq> k \<longrightarrow> map_of (recorders self1) x = map_of (recorders self) x"
      and keys1: "map fst (recorders self1) = map fst (recorders self)"
      and rest1: "cache_file self1 = cache_file self" "context_integrator self1 = context_integrator self"
      by blast
    from Cons.prems keys1 have sub: "set ks \<subseteq> set (map fst (recorders self1))" by simp
    from Cons.IH [OF sub] obtain self' where r: "shutdown_loop env ks self1 = Inr self'"
      and keys: "map fst (recorders self') = map fst (recorders self1)"
      and rest: "cache_file self' = cache_file self1" "context_integrator self' = context_integrator self1"
      and eff: "\<forall>x. map_of (recorders self') x =
        (if x \<in> set ks then map_option (stopped_config env x) (map_of (recorders self1) x)
         else map_of (recorders self1) x)"
      by blast
    have "map_of (recorders self') x =
        (if x \<in> set (k # ks) then map_option (stopped_config env x) (map_of (recorders self) x)
         else map_of (recorders self) x)" for x
    proof (cases "x = k")
      case True
      then show ?thesis using eff [rule_format, of k] here known
        by (simp add: stopped_config_idem)
    next
      case False
      then show ?thesis using eff [rule_format, of x] others by simp
    qed
    then show ?thesis using known True s r keys keys1 rest rest1 by simp
  qed
qed

subsection \<open>Facts about \<open>start\<close> and \<open>add_recorder\<close>\<close>

lemma start_keeps_known:
  "map_of (recorders self) rid = Some config \<Longrightarrow>
   \<exists>config'. map_of (recorders (snd (start env rid self))) rid = Some config'"
  by (auto simp: start_def Let_def map_of_set_config split: outcome.splits)

lemma add_recorder_fst: "fst (add_recorder rid apps mode task self) = rid"
  by (simp add: add_recorder_def)

lemma add_recorder_known:
  "\<exists>config. map_of (recorders (snd (add_recorder rid apps mode task self))) rid = Some config"
  by (simp add: add_recorder_def update_conv')

subsection \<open>Each admissible operation keeps the count\<close>

text \<open>
  The invariant is carried together with the uniqueness of the dictionary's keys.
\<close>

lemma add_recorder_inv:
  assumes "distinct (map fst (recorders self))" and "registry_inv self"
    and "rid \<notin> set (map fst (recorders self))"
  shows "distinct (map fst (recorders (snd (add_recorder rid apps mode task self)))) \<and>
         registry_inv (snd (add_recorder rid apps mode task self))"
proof -
  from assms(3) have "map_of (recorders self) rid = None"
    by (simp add: map_of_eq_None_iff)
  from count_active_update_fresh [OF this] assms(1,2) show ?thesis
    by (simp add: add_recorder_def registry_inv_def distinct_update)
qed

lemma start_inv:
  assumes d: "distinct (map fst (recorders self))" and i: "registry_inv self"
    and na: "\<not> session_active self rid"
  shows "distinct (map fst (recorders (snd (start env rid self)))) \<and>
         registry_inv (snd (start env rid self))"
proof (cases "map_of (recorders self) rid")
  case None
  then show ?thesis using d i by (simp add: start_def)
next
  case (Some config)
  then have inactive: "\<not> is_recording config" using na by (simp add: session_active_def)
  note same = count_same [OF Some]
  note up = count_up [OF Some inactive]
  show ?thesis using d i Some inactive
    by (auto simp: start_def Let_def set_config_simps distinct_update registry_inv_def same up
        split: outcome.splits)
qed

lemma stop_inv:
  assumes d: "distinct (map fst (recorders self))" and i: "registry_inv self"
    and s: "stop env rid self = Inr self'"
  shows "distinct (map fst (recorders self')) \<and> registry_inv self'"
proof (cases "map_of (recorders self) rid")
  case None
  then show ?thesis using s by (simp add: stop_def)
next
  case (Some config)
  show ?thesis
  proof (cases "is_recording config")
    case False
    then show ?thesis using d i s Some by (simp add: stop_def)
  next
    case True
    note same = count_same [OF Some]
    note down = count_down [OF Some True]
    note pos = count_pos [OF Some True]
    show ?thesis using d i s Some True pos
      by (auto simp: stop_def Let_def set_config_simps distinct_update registry_inv_def same down
          split: outcome.splits if_splits)
  qed
qed

lemma shutdown_inv:
  assumes d: "distinct (map fst (recorders self))"
    and ok: "op_ok (Shutdown env) self"
  shows "distinct (map fst (recorders (apply_op (Shutdown env) self))) \<and>
         registry_inv (apply_op (Shutdown env) self)"
proof -
  obtain self1 where r: "shutdown_loop env (map fst (recorders self)) self = Inr self1"
    and keys: "map fst (recorders self1) = map fst (recorders self)"
    and mono: "\<forall>x. session_active self1 x \<longrightarrow> session_active self x"
    and good: "\<forall>k\<in>set (map fst (recorders self)).
        stop_pipeline env k = Returns () \<and> stop_stream env k = Returns ()
          \<longrightarrow> \<not> session_active self1 k"
    using shutdown_loop_returns [of "map fst (recorders self)" self env] by blast
  have "\<forall>k\<in>set (map fst (recorders self1)). \<not> session_active self1 k"
    using ok keys mono good by (auto simp: list_all_iff)
  then have "\<forall>k\<in>set (map fst (recorders self1)). \<forall>c. map_of (recorders self1) k = Some c \<longrightarrow> \<not> is_recording c"
    by (auto simp: session_active_def)
  moreover have d1: "distinct (map fst (recorders self1))" using d keys by simp
  ultimately have "count_active (recorders self1) = 0"
    by (rule count_all_inactive [rotated])
  then show ?thesis using r d1 by (simp add: shutdown_def registry_inv_def)
qed

lemma apply_op_inv:
  assumes "distinct (map fst (recorders self))" and "registry_inv self" and "op_ok x self"
  shows "distinct (map fst (recorders (apply_op x self))) \<and> registry_inv (apply_op x self)"
proof (cases x)
  case (AddRecorder rid apps mode task)
  then show ?thesis using assms add_recorder_inv by simp
next
  case (Start env rid)
  then show ?thesis using assms start_inv by simp
next
  case (Stop env rid)
  then show ?thesis using assms stop_inv [of self env rid]
    by (cases "stop env rid self") auto
next
  case (Shutdown env)
  then show ?thesis using assms shutdown_inv by blast
qed

lemma run_inv:
  "admissible ops self \<Longrightarrow> distinct (map fst (recorders self)) \<Longrightarrow> registry_inv self \<Longrightarrow>
   registry_inv (run ops self)"
proof (induction ops arbitrary: self)
  case Nil
  then show ?case by simp
next
  case (Cons x xs)
  from Cons.prems have ok: "op_ok x self" and rest: "admissible xs (apply_op x self)" by simp_all
  from apply_op_inv [OF Cons.prems(2,3) ok] Cons.IH [OF rest] show ?case by simp
qed

section \<open>Dates in file names: auxiliary facts\<close>

lemma digit_char_inj:
  assumes "a < 10" and "b < 10" and "digit_char a = digit_char b"
  shows "a = b"
proof -
  from assms(3) have "(48 + a) mod 256 = (48 + b) mod 256"
    by (simp add: char_of_eq_iff take_bit_eq_mod)
  then show ?thesis using assms(1,2) by simp
qed

lemma str_nat_small: "n < 10 \<Longrightarrow> str_nat n = [digit_char n]"
  by (subst str_nat.simps) (simp del: str_nat.simps digit_char.simps)

lemma str_nat_large: "\<not> n < 10 \<Longrightarrow> str_nat n = str_nat (n div 10) @ [digit_char (n mod 10)]"
  by (subst str_nat.simps) (simp del: str_nat.simps digit_char.simps)

lemma zero_pad_2:
  "n < 100 \<Longrightarrow> zero_pad 2 n = [digit_char (n div 10), digit_char (n mod 10)]"
proof (cases "n < 10")
  case True
  then show ?thesis
    by (simp add: zero_pad_def str_nat_small char_of_def bit_Suc_0_iff del: str_nat.simps)
next
  case False
  moreover assume "n < 100"
  ultimately have "n div 10 < 10" by simp
  with False show ?thesis
    by (simp add: zero_pad_def str_nat_large str_nat_small del: str_nat.simps digit_char.simps)
qed

lemma zero_pad_4:
  assumes "1000 \<le> n" and "n < 10000"
  shows "zero_pad 4 n = [digit_char (n div 1000), digit_char (n div 100 mod 10),
                         digit_char (n div 10 mod 10), digit_char (n mod 10)]"
proof -
  have a: "\<not> n < 10" "\<not> n div 10 < 10" "\<not> n div 100 < 10" "n div 1000 < 10"
    using assms by simp_all
  have d: "n div 10 div 10 = n div 100" "n div 100 div 10 = n div 1000"
    by (simp_all add: div_mult2_eq [symmetric])
  have "str_nat n = str_nat (n div 10) @ [digit_char (n mod 10)]"
    using a(1) by (rule str_nat_large)
  also have "str_nat (n div 10) = str_nat (n div 100) @ [digit_char (n div 10 mod 10)]"
    using str_nat_large [OF a(2)] d by simp
  also have "str_nat (n div 100) = str_nat (n div 1000) @ [digit_char (n div 100 mod 10)]"
    using str_nat_large [OF a(3)] d by simp
  also have "str_nat (n div 1000) = [digit_char (n div 1000)]"
    using a(4) by (rule str_nat_small)
  finally show ?thesis by (simp add: zero_pad_def del: str_nat.simps digit_char.simps)
qed


lemma four_digits:
  "(y::nat) = 1000 * (y div 1000) + 100 * (y div 100 mod 10) + 10 * (y div 10 mod 10) + y mod 10"
proof -
  have 1: "y = 10 * (y div 10) + y mod 10" by simp
  have 2: "y div 10 = 10 * (y div 100) + y div 10 mod 10"
    using mult_div_mod_eq [of 10 "y div 10"] by (simp add: div_mult2_eq [symmetric])
  have 3: "y div 100 = 10 * (y div 1000) + y div 100 mod 10"
    using mult_div_mod_eq [of 10 "y div 100"] by (simp add: div_mult2_eq [symmetric])
  from 1 2 3 show ?thesis by linarith
qed


lemma digits_agree:
  "(y::nat) = 1000 * a + 100 * b + 10 * c + e \<Longrightarrow> c = p \<Longrightarrow> e = q \<Longrightarrow> p = a \<Longrightarrow> q = b \<Longrightarrow>
   m = 10 * p + q \<Longrightarrow> y = 101 * m"
  by simp

section \<open>Properties of the session registry\<close>

text \<open>
  C1 (as amended). For a session known to the registry, \<open>start\<close> returns
  \<open>True\<close> exactly when the capture stream, the analysis pipeline and the
  integrator all started; then the session is active, the global recording flag is
  set, the active count has grown by one and all three stages are started. When it
  returns \<open>False\<close>, the session's active flag, the active count and the global
  flag are what they were before the call, and when it was the capture stream that
  did not start, nothing at all has changed.
\<close>

theorem start_result:
  assumes "map_of (recorders self) rid = Some config" and "start env rid self = (ok, self')"
  shows "ok = (start_stream env rid = Returns True \<and> start_pipeline env rid = Returns () \<and>
               start_integrator env = Returns ()) \<and>
         (ok \<longrightarrow> session_active self' rid \<and> self_is_recording self' \<and>
                active_recorders self' = active_recorders self + 1 \<and>
                (\<exists>c. map_of (recorders self') rid = Some c \<and> video_stream c = Started \<and>
                     transcription_pipeline c = Started) \<and>
                context_integrator self' = Started) \<and>
         (\<not> ok \<longrightarrow> session_active self' rid = is_recording config \<and>
                active_recorders self' = active_recorders self \<and>
                self_is_recording self' = self_is_recording self) \<and>
         (start_stream env rid \<noteq> Returns True \<longrightarrow> self' = self)"
  using assms
  by (auto simp: start_def Let_def map_of_set_config set_config_simps(2-5) session_active_def
      split: outcome.splits if_splits)

text \<open>A session that starts, and one whose capture stream refuses.\<close>

theorem start_result_witness:
  "map_of (recorders one_idle) ''a'' = Some idle_config \<and>
   fst (start all_return ''a'' one_idle) \<and>
   session_active (snd (start all_return ''a'' one_idle)) ''a'' \<and>
   self_is_recording (snd (start all_return ''a'' one_idle)) \<and>
   context_integrator (snd (start all_return ''a'' one_idle)) = Started \<and>
   \<not> fst (start capture_refuses ''a'' one_idle) \<and>
   \<not> session_active (snd (start capture_refuses ''a'' one_idle)) ''a'' \<and>
   snd (start capture_refuses ''a'' one_idle) = one_idle"
proof -
  have h: "map_of (recorders one_idle) ''a'' = Some idle_config"
    by (simp add: one_idle_def)
  have e1: "start_stream all_return ''a'' = Returns True \<and> start_pipeline all_return ''a'' = Returns () \<and>
       start_integrator all_return = Returns ()"
    by (simp add: all_return_def)
  have e2: "start_stream capture_refuses ''a'' \<noteq> Returns True"
    by (simp add: capture_refuses_def all_return_def)
  have i: "\<not> is_recording idle_config \<and> \<not> session_active one_idle ''a''"
    by (simp add: idle_config_def one_idle_def session_active_def)
  show ?thesis
    using start_result [OF h, of all_return "fst (start all_return ''a'' one_idle)"
        "snd (start all_return ''a'' one_idle)"]
      start_result [OF h, of capture_refuses "fst (start capture_refuses ''a'' one_idle)"
        "snd (start capture_refuses ''a'' one_idle)"] h e1 e2 i
    by simp
qed

text \<open>
  The claim as stated fails: when the analysis pipeline raises after the capture
  stream has started, \<open>start\<close> returns \<open>False\<close> and the stream is still
  started; and a failed second \<open>start\<close> of a recording session returns
  \<open>False\<close> while the session is still active.
\<close>

theorem start_failure_counterexample:
  "start analysis_start_raises ''a'' one_idle =
     (False, one_idle\<lparr>recorders := [(''a'', idle_config\<lparr>video_stream := Started\<rparr>)]\<rparr>) \<and>
   fst (start capture_refuses ''a'' two_recording) = False \<and>
   session_active (snd (start capture_refuses ''a'' two_recording)) ''a''"
  by (simp add: start_def analysis_start_raises_def capture_refuses_def all_return_def one_idle_def
      two_recording_def set_config_def session_active_def recording_config_def)

text \<open>
  C2. \<open>stop\<close> is meant to be a no-op on an id the registry does not know. The
  subscript in its first line raises instead: on the fresh registry,
  \<open>stop("unknown-id")\<close> ends in \<open>KeyError\<close>, whereas \<open>start\<close>, which tests
  \<open>recorder_id not in self.recorders\<close> first, returns \<open>False\<close> and changes
  nothing.
\<close>

theorem stop_unknown_id_raises:
  "stop env ''unknown-id'' (init cf) = Inl KeyError \<and>
   start env ''unknown-id'' (init cf) = (False, init cf)"
  by (simp add: stop_def start_def init_def)

text \<open>
  C3. \<open>shutdown\<close> always returns, from every registry state and whatever the
  collaborators answer, with the active count at 0 and the global recording flag
  false. It keeps every record in its place, leaves the cache path and the
  integrator alone, and what it leaves of a session
  depends on that session's own stop calls only: a recording session whose two
  stop calls return ends with both stages stopped and inactive, whether or not the
  stop calls of other sessions raise; a session whose analysis stop raises is left
  as it was, one whose capture stop raises is left with only the analysis stopped,
  and a session that was not recording is not touched.
\<close>

theorem shutdown_clean:
  "\<exists>self'. shutdown env self = Inr self' \<and>
     active_recorders self' = 0 \<and> \<not> self_is_recording self' \<and>
     map fst (recorders self') = map fst (recorders self) \<and>
     cache_file self' = cache_file self \<and> context_integrator self' = context_integrator self \<and>
     (\<forall>rid config. map_of (recorders self) rid = Some config \<longrightarrow>
        map_of (recorders self') rid = Some
          (if \<not> is_recording config then config
           else if stop_pipeline env rid = Raises then config
           else if stop_stream env rid = Raises
             then config\<lparr>transcription_pipeline := Stopped\<rparr>
           else config\<lparr>transcription_pipeline := Stopped, video_stream := Stopped,
                        is_recording := False\<rparr>))"
proof -
  obtain self1 where r: "shutdown_loop env (map fst (recorders self)) self = Inr self1"
    and keys: "map fst (recorders self1) = map fst (recorders self)"
    and rest: "cache_file self1 = cache_file self" "context_integrator self1 = context_integrator self"
    and eff: "\<forall>x. map_of (recorders self1) x =
        (if x \<in> set (map fst (recorders self))
         then map_option (stopped_config env x) (map_of (recorders self) x)
         else map_of (recorders self) x)"
    using shutdown_loop_effect [of "map fst (recorders self)" self env] by blast
  have "map_of (recorders self1) rid = Some (stopped_config env rid config)"
    if "map_of (recorders self) rid = Some config" for rid config
  proof -
    from that have "rid \<in> set (map fst (recorders self))"
      by (metis map_of_eq_None_iff option.distinct(1) set_map)
    then show ?thesis using eff [rule_format, of rid] that by simp
  qed
  then show ?thesis using r keys rest by (simp add: shutdown_def stopped_config_def)
qed

text \<open>With two recording sessions, the stop of \<open>a\<close> raising does not keep \<open>b\<close>
  from being stopped: \<open>a\<close> is left recording, \<open>b\<close> has both stages stopped.\<close>

theorem shutdown_clean_witness:
  "map_of (recorders two_recording) ''a'' = Some recording_config \<and>
   map_of (recorders two_recording) ''b'' = Some recording_config \<and>
   stop_pipeline stop_of_a_raises ''a'' = Raises \<and>
   stop_pipeline stop_of_a_raises ''b'' = Returns () \<and>
   stop_stream stop_of_a_raises ''b'' = Returns () \<and>
   (\<exists>self'. shutdown stop_of_a_raises two_recording = Inr self' \<and>
      active_recorders self' = 0 \<and> \<not> self_is_recording self' \<and>
      map fst (recorders self') = [''a'', ''b''] \<and>
      map_of (recorders self') ''a'' = Some recording_config \<and>
      map_of (recorders self') ''b'' =
        Some (recording_config\<lparr>transcription_pipeline := Stopped, video_stream := Stopped,
                                 is_recording := False\<rparr>))"
proof -
  have a: "map_of (recorders two_recording) ''a'' = Some recording_config"
    and b: "map_of (recorders two_recording) ''b'' = Some recording_config"
    by (simp_all add: two_recording_def)
  have e: "stop_pipeline stop_of_a_raises ''a'' = Raises"
    "stop_pipeline stop_of_a_raises ''b'' = Returns ()"
    "stop_stream stop_of_a_raises ''b'' = Returns ()"
    by (simp_all add: stop_of_a_raises_def all_return_def)
  have c: "is_recording recording_config" by (simp add: recording_config_def)
  have k: "map fst (recorders two_recording) = [''a'', ''b'']" by (simp add: two_recording_def)
  from shutdown_clean [of stop_of_a_raises two_recording]
  obtain self' where r: "shutdown stop_of_a_raises two_recording = Inr self'"
    and z: "active_recorders self' = 0" "\<not> self_is_recording self'"
    and keys: "map fst (recorders self') = map fst (recorders two_recording)"
    and eff: "\<forall>rid config. map_of (recorders two_recording) rid = Some config \<longrightarrow>
        map_of (recorders self') rid = Some
          (if \<not> is_recording config then config
           else if stop_pipeline stop_of_a_raises rid = Raises then config
           else if stop_stream stop_of_a_raises rid = Raises
             then config\<lparr>transcription_pipeline := Stopped\<rparr>
           else config\<lparr>transcription_pipeline := Stopped, video_stream := Stopped,
                        is_recording := False\<rparr>)"
    by blast
  from eff [rule_format, OF a] e c
  have ra: "map_of (recorders self') ''a'' = Some recording_config" by simp
  from eff [rule_format, OF b] e c
  have rb: "map_of (recorders self') ''b'' =
        Some (recording_config\<lparr>transcription_pipeline := Stopped, video_stream := Stopped,
                                 is_recording := False\<rparr>)" by simp
  show ?thesis using a b e r z keys k ra rb by simp
qed

text \<open>
  C10. When a recording session is stopped and the stop of its analysis pipeline or
  of its capture stream raises, \<open>stop\<close> still returns normally, the session stays
  active, and the active count and the global recording flag are what they were.
\<close>

theorem stop_failure_keeps_active:
  assumes "map_of (recorders self) rid = Some config" and "is_recording config"
    and "stop_pipeline env rid = Raises \<or> stop_stream env rid = Raises"
  shows "\<exists>self'. stop env rid self = Inr self' \<and> session_active self' rid \<and>
     active_recorders self' = active_recorders self \<and>
     self_is_recording self' = self_is_recording self"
  using assms
  by (auto simp: stop_def Let_def map_of_set_config set_config_simps(2-5) session_active_def
      split: outcome.splits)

theorem stop_failure_keeps_active_witness:
  "map_of (recorders two_recording) ''a'' = Some recording_config \<and>
   is_recording recording_config \<and>
   stop_pipeline stop_of_a_raises ''a'' = Raises \<and>
   (\<exists>self'. stop stop_of_a_raises ''a'' two_recording = Inr self' \<and>
      session_active self' ''a'' \<and> active_recorders self' = 2 \<and> self_is_recording self')"
proof -
  have h1: "map_of (recorders two_recording) ''a'' = Some recording_config"
    by (simp add: two_recording_def)
  have h2: "is_recording recording_config"
    by (simp add: recording_config_def)
  have h3: "stop_pipeline stop_of_a_raises ''a'' = Raises \<or> stop_stream stop_of_a_raises ''a'' = Raises"
    by (simp add: stop_of_a_raises_def all_return_def)
  have h4: "stop_pipeline stop_of_a_raises ''a'' = Raises"
    by (simp add: stop_of_a_raises_def all_return_def)
  have h5: "active_recorders two_recording = 2 \<and> self_is_recording two_recording"
    by (simp add: two_recording_def)
  show ?thesis
    using stop_failure_keeps_active [OF h1 h2 h3] h1 h2 h4 h5 by simp
qed

text \<open>
  C4 (as amended). From the fresh registry, every run of \<open>add_recorder\<close>,
  \<open>start\<close>, \<open>stop\<close> and \<open>shutdown\<close> in which no \<open>start\<close> is issued for
  a session that is already active and no stop call of a still-active session
  fails during a \<open>shutdown\<close> (collaborator calls may fail anywhere else) ends
  in a state where the active count is the number of configurations with
  \<open>is_recording\<close> set and the global flag is set exactly when that count is
  positive.
\<close>

theorem count_kept_by_admissible_runs:
  "admissible ops (init cf) \<Longrightarrow> registry_inv (run ops (init cf))"
  by (rule run_inv) (simp_all add: init_def registry_inv_def count_active_def)

theorem count_kept_by_admissible_runs_witness:
  "admissible sample_ops (init ''/c'') \<and> registry_inv (run sample_ops (init ''/c''))"
proof -
  have h: "admissible sample_ops (init ''/c'')"
    by (simp add: sample_ops_def init_def add_recorder_def start_def stop_def shutdown_def
        all_return_def analysis_start_raises_def stop_of_a_raises_def set_config_def
        session_active_def)
  show ?thesis using count_kept_by_admissible_runs [OF h] h by simp
qed

text \<open>
  The claim as stated fails on two runs: starting a session twice counts it twice,
  and a shutdown during which a stop fails zeroes the count while the session stays
  active.
\<close>

theorem count_broken_counterexample:
  "\<not> registry_inv (run [AddRecorder ''a'' None full_screen None, Start all_return ''a'',
                         Start all_return ''a''] (init ''/c'')) \<and>
   \<not> registry_inv (run [AddRecorder ''a'' None full_screen None, Start all_return ''a'',
                         Shutdown stop_of_a_raises] (init ''/c''))"
  by (simp add: init_def add_recorder_def start_def stop_def shutdown_def
        all_return_def stop_of_a_raises_def set_config_def registry_inv_def count_active_def)

section \<open>Properties of the cache file\<close>

text \<open>
  C5. The recorder CLI and the servers are meant to agree on the per-day file. They
  do not: for 3 November 2026 the CLI's default \<open>--cache-file\<close> ends in
  \<open>20261103\<close> (\<open>%Y%m%d\<close>), both servers read the file ending in \<open>03112026\<close>
  (\<open>%d%m%Y\<close>), and a \<open>ContextRecorder\<close> built without a \<open>cache_file\<close> writes
  to a path with no day in it.
\<close>

theorem cache_paths_differ:
  "cli_default_cache_file ''/home/u'' \<lparr>year = 2026, month = 11, day = 3\<rparr>
     = ''/home/u/.cache/inframe/20261103'' \<and>
   server_cache_file ''/home/u'' \<lparr>year = 2026, month = 11, day = 3\<rparr>
     = ''/home/u/.cache/inframe/03112026'' \<and>
   network_server_cache_file ''/home/u'' \<lparr>year = 2026, month = 11, day = 3\<rparr>
     = ''/home/u/.cache/inframe/03112026'' \<and>
   recorder_default_cache_file ''/home/u'' = ''/home/u/.cache/inframe'' \<and>
   cli_default_cache_file ''/home/u'' \<lparr>year = 2026, month = 11, day = 3\<rparr>
     \<noteq> server_cache_file ''/home/u'' \<lparr>year = 2026, month = 11, day = 3\<rparr>"
  by (simp add: cli_default_cache_file_def server_cache_file_def network_server_cache_file_def
      recorder_default_cache_file_def under_home_def strftime_Ymd_def strftime_dmY_def
      zero_pad_def char_of_def bit_Suc_0_iff)

text \<open>
  The two names differ on every day from the year 1213 on: they can only coincide
  when day, month and both halves of the year are the same two digits.
\<close>

lemma cache_paths_never_agree:
  assumes "1213 \<le> year d" and "year d < 10000" and "month d \<le> 12" and "day d \<le> 31"
  shows "cli_default_cache_file home d \<noteq> server_cache_file home d"
proof
  assume "cli_default_cache_file home d = server_cache_file home d"
  then have eq: "strftime_Ymd d = strftime_dmY d"
    by (simp add: cli_default_cache_file_def server_cache_file_def under_home_def)
  have y: "zero_pad 4 (year d) = [digit_char (year d div 1000), digit_char (year d div 100 mod 10),
                         digit_char (year d div 10 mod 10), digit_char (year d mod 10)]"
    using assms(1,2) by (intro zero_pad_4) simp_all
  have mo: "zero_pad 2 (month d) = [digit_char (month d div 10), digit_char (month d mod 10)]"
    using assms(3) by (intro zero_pad_2) simp
  have da: "zero_pad 2 (day d) = [digit_char (day d div 10), digit_char (day d mod 10)]"
    using assms(4) by (intro zero_pad_2) simp
  from eq have leq:
    "[digit_char (year d div 1000), digit_char (year d div 100 mod 10),
      digit_char (year d div 10 mod 10), digit_char (year d mod 10),
      digit_char (month d div 10), digit_char (month d mod 10),
      digit_char (day d div 10), digit_char (day d mod 10)] =
     [digit_char (day d div 10), digit_char (day d mod 10),
      digit_char (month d div 10), digit_char (month d mod 10),
      digit_char (year d div 1000), digit_char (year d div 100 mod 10),
      digit_char (year d div 10 mod 10), digit_char (year d mod 10)]"
    unfolding strftime_Ymd_def strftime_dmY_def y mo da by (simp only: append.simps)
  have e: "digit_char (year d div 10 mod 10) = digit_char (month d div 10)"
    "digit_char (year d mod 10) = digit_char (month d mod 10)"
    "digit_char (month d div 10) = digit_char (year d div 1000)"
    "digit_char (month d mod 10) = digit_char (year d div 100 mod 10)"
    using arg_cong [OF leq, of "\<lambda>l. l ! Suc (Suc 0)"]
      arg_cong [OF leq, of "\<lambda>l. l ! Suc (Suc (Suc 0))"]
      arg_cong [OF leq, of "\<lambda>l. l ! Suc (Suc (Suc (Suc 0)))"]
      arg_cong [OF leq, of "\<lambda>l. l ! Suc (Suc (Suc (Suc (Suc 0))))"]
    by (simp_all only: nth_Cons_Suc nth_Cons_0)
  have b: "year d div 1000 < 10" "month d div 10 < 10" using assms by simp_all
  have m1: "year d div 10 mod 10 = month d div 10"
    using e(1) b by (intro digit_char_inj) (simp_all del: digit_char.simps)
  have m2: "year d mod 10 = month d mod 10"
    using e(2) by (intro digit_char_inj) (simp_all del: digit_char.simps)
  have m3: "month d div 10 = year d div 1000"
    using e(3) b by (intro digit_char_inj) (simp_all del: digit_char.simps)
  have m4: "month d mod 10 = year d div 100 mod 10"
    using e(4) by (intro digit_char_inj) (simp_all del: digit_char.simps)
  have mm: "month d = 10 * (month d div 10) + month d mod 10" by simp
  have "year d = 101 * month d"
    by (rule digits_agree [OF four_digits m1 m2 m3 m4 mm])
  then show False using assms(1,3) by simp
qed

text \<open>
  C7. Whatever step of the cache write fails (reading the current context, making
  a string of it, or writing the file), \<open>_on_context_update\<close> returns normally and
  the registry, the active count and the global recording flag are exactly what
  they were before the notification.
\<close>

theorem on_context_update_keeps_recording_state:
  "\<exists>self' fs'. on_context_update context_update env self fs = Inr (self', fs') \<and>
     recorders self' = recorders self \<and>
     active_recorders self' = active_recorders self \<and>
     self_is_recording self' = self_is_recording self"
  by (simp add: on_context_update_def split: prod.splits sum.splits)

text \<open>
  C6 (as amended). Reading a missing cache file gives the \<open>No screen context
  available\<close> text from both tools, without an exception. Reading a cache file that
  exists and is empty does not raise either, but \<open>get_latest_screen_context\<close>
  returns the empty content itself and \<open>check_screen_context_status\<close> reports a
  file with no sessions and 0 characters.
\<close>

theorem reading_missing_or_empty:
  "(fs cf = None \<longrightarrow>
      get_latest_screen_context cf fs = Inr no_context_available \<and>
      check_screen_context_status cf fs = Inr no_context_available) \<and>
   (fs cf = Some (RegularFile []) \<longrightarrow>
      get_latest_screen_context cf fs = Inr [] \<and>
      check_screen_context_status cf fs =
        Inr ''Screen context file exists but no sessions found. Content length: 0 characters'')"
  by (simp add: get_latest_screen_context_def check_screen_context_status_def path_exists_def
      read_text_def startswith_def char_of_def bit_Suc_0_iff)

theorem reading_missing_or_empty_witness:
  "Map.empty ''/home/u/.cache/inframe/03112026'' = (None :: node option) \<and>
   get_latest_screen_context ''/home/u/.cache/inframe/03112026'' Map.empty = Inr no_context_available \<and>
   check_screen_context_status ''/home/u/.cache/inframe/03112026'' Map.empty = Inr no_context_available \<and>
   empty_cache_store ''/home/u/.cache/inframe/03112026'' = Some (RegularFile []) \<and>
   get_latest_screen_context ''/home/u/.cache/inframe/03112026'' empty_cache_store = Inr [] \<and>
   check_screen_context_status ''/home/u/.cache/inframe/03112026'' empty_cache_store =
     Inr ''Screen context file exists but no sessions found. Content length: 0 characters''"
proof -
  have h: "empty_cache_store ''/home/u/.cache/inframe/03112026'' = Some (RegularFile [])"
    by (simp add: empty_cache_store_def)
  show ?thesis
    using reading_missing_or_empty [of Map.empty "''/home/u/.cache/inframe/03112026''"]
      reading_missing_or_empty [of empty_cache_store "''/home/u/.cache/inframe/03112026''"] h
    by simp
qed

text \<open>The claim as stated fails on the empty file: neither tool answers with the
  sentinel.\<close>

theorem empty_file_counterexample:
  "get_latest_screen_context ''/home/u/.cache/inframe/03112026'' empty_cache_store = Inr [] \<and>
   [] \<noteq> no_context_available \<and>
   check_screen_context_status ''/home/u/.cache/inframe/03112026'' empty_cache_store \<noteq>
     Inr no_context_available"
  by (simp add: get_latest_screen_context_def check_screen_context_status_def path_exists_def
      read_text_def startswith_def char_of_def bit_Suc_0_iff empty_cache_store_def no_context_available_def)

text \<open>Text without a carriage return is read back as it was written.\<close>

lemma universal_newlines_id:
  "CHR 0x0D \<notin> set s \<Longrightarrow> universal_newlines s = s"
  by (induction s rule: universal_newlines.induct) auto

text \<open>
  C8 (as amended). When the body of \<open>_on_context_update\<close> runs through without an
  exception, the file at the recorder's \<open>cache_file\<close> holds exactly the string
  made of the integrator's current context as \<open>get_current_context\<close> returned it
  at the notification (the string itself if it is a string, \<open>json.dumps\<close> of it if
  it is a dictionary, \<open>str\<close> of anything else), whatever the file held before.
  Reading that file, directly or through \<open>get_latest_screen_context\<close> pointed at
  it, gives that string with every line end turned into a line feed, which is the
  string itself when it has no carriage return in it.
\<close>

theorem cache_round_trip:
  assumes "export_context env self fs = (Inr (), fs')"
  shows "\<exists>current_context text.
     get_current_context env = Returns current_context \<and>
     (case current_context of
        PyStr s \<Rightarrow> text = s
      | PyDict d \<Rightarrow> json_dumps env current_context = Returns text
      | _ \<Rightarrow> py_str env current_context = Returns text) \<and>
     on_context_update context_update env self fs = Inr (self, fs') \<and>
     fs' = fs(cache_file self \<mapsto> RegularFile text) \<and>
     read_text fs' (cache_file self) = Inr (universal_newlines text) \<and>
     get_latest_screen_context (cache_file self) fs' = Inr (universal_newlines text) \<and>
     (CHR 0x0D \<notin> set text \<longrightarrow> get_latest_screen_context (cache_file self) fs' = Inr text)"
  using assms
  by (auto simp: export_context_def on_context_update_def ensure_string_def raise_or_def
      write_text_def read_text_def get_latest_screen_context_def path_exists_def
      universal_newlines_id
      split: outcome.splits sum.splits py_value.splits option.splits node.splits)

text \<open>A string is written over an empty store, and a dictionary over that string.\<close>

theorem cache_round_trip_witness:
  "export_context pushes_text two_recording Map.empty =
     (Inr (), Map.empty(''/home/u/.cache/inframe'' \<mapsto> RegularFile ''NEW RECORDING SESSION 1'')) \<and>
   get_latest_screen_context ''/home/u/.cache/inframe''
     (Map.empty(''/home/u/.cache/inframe'' \<mapsto> RegularFile ''NEW RECORDING SESSION 1''))
     = Inr ''NEW RECORDING SESSION 1'' \<and>
   export_context pushes_dict two_recording
      (Map.empty(''/home/u/.cache/inframe'' \<mapsto> RegularFile ''NEW RECORDING SESSION 1'')) =
     (Inr (), Map.empty(''/home/u/.cache/inframe'' \<mapsto> RegularFile ''{}'')) \<and>
   get_latest_screen_context ''/home/u/.cache/inframe''
     (Map.empty(''/home/u/.cache/inframe'' \<mapsto> RegularFile ''{}'')) = Inr ''{}''"
proof -
  have h1: "export_context pushes_text two_recording Map.empty =
     (Inr (), Map.empty(''/home/u/.cache/inframe'' \<mapsto> RegularFile ''NEW RECORDING SESSION 1''))"
    by (simp add: export_context_def pushes_text_def ensure_string_def write_text_def
        two_recording_def)
  have h2: "export_context pushes_dict two_recording
      (Map.empty(''/home/u/.cache/inframe'' \<mapsto> RegularFile ''NEW RECORDING SESSION 1'')) =
     (Inr (), Map.empty(''/home/u/.cache/inframe'' \<mapsto> RegularFile ''{}''))"
    by (simp add: export_context_def pushes_dict_def ensure_string_def write_text_def
        two_recording_def raise_or_def)
  have c: "cache_file two_recording = ''/home/u/.cache/inframe''"
    by (simp add: two_recording_def)
  have t1: "get_current_context pushes_text = Returns (PyStr ''NEW RECORDING SESSION 1'')"
    by (simp add: pushes_text_def)
  have t2: "get_current_context pushes_dict = Returns (PyDict []) \<and>
      json_dumps pushes_dict (PyDict []) = Returns ''{}''"
    by (simp add: pushes_dict_def)
  from cache_round_trip [OF h1, of PyNone] t1 c
  have r1: "get_latest_screen_context ''/home/u/.cache/inframe''
     (Map.empty(''/home/u/.cache/inframe'' \<mapsto> RegularFile ''NEW RECORDING SESSION 1''))
     = Inr ''NEW RECORDING SESSION 1''"
    by auto
  from cache_round_trip [OF h2, of PyNone] t2 c
  have r2: "get_latest_screen_context ''/home/u/.cache/inframe''
     (Map.empty(''/home/u/.cache/inframe'' \<mapsto> RegularFile ''{}'')) = Inr ''{}''"
    by auto
  show ?thesis using h1 h2 r1 r2 by simp
qed

text \<open>
  The claim as stated fails three ways. A context with a carriage return is written
  without error and read back changed. The file holds the integrator's current
  context, not the snapshot handed to the callback. And a list, which is not a
  dictionary, is written as \<open>str\<close> makes it, not as JSON.
\<close>

theorem cache_round_trip_counterexample:
  "export_context pushes_crlf two_recording Map.empty =
     (Inr (), Map.empty(''/home/u/.cache/inframe'' \<mapsto>
        RegularFile (''line1'' @ [CHR 0x0D, CHR 0x0A] @ ''line2''))) \<and>
   get_latest_screen_context ''/home/u/.cache/inframe''
     (Map.empty(''/home/u/.cache/inframe'' \<mapsto>
        RegularFile (''line1'' @ [CHR 0x0D, CHR 0x0A] @ ''line2'')))
     = Inr (''line1'' @ [CHR 0x0A] @ ''line2'') \<and>
   ''line1'' @ [CHR 0x0A] @ ''line2'' \<noteq> ''line1'' @ [CHR 0x0D, CHR 0x0A] @ ''line2'' \<and>
   on_context_update (PyStr ''pushed snapshot'') pushes_text two_recording Map.empty =
     Inr (two_recording,
          Map.empty(''/home/u/.cache/inframe'' \<mapsto> RegularFile ''NEW RECORDING SESSION 1'')) \<and>
   export_context pushes_list two_recording Map.empty =
     (Inr (), Map.empty(''/home/u/.cache/inframe'' \<mapsto> RegularFile ''[1]'')) \<and>
   json_dumps pushes_list (PyList [PyInt 1]) \<noteq> Returns ''[1]''"
  by (simp add: export_context_def on_context_update_def ensure_string_def raise_or_def
      write_text_def read_text_def get_latest_screen_context_def path_exists_def
      pushes_crlf_def pushes_text_def pushes_list_def two_recording_def)

section \<open>Properties of the recorder CLI\<close>

text \<open>
  C9 (as amended). The CLI ends with status 0 on normal completion, and it also
  ends with status 0 when starting the recording fails: when the recorder and its
  session were constructed, standard output takes what is printed and no interrupt
  from the keyboard goes uncaught, \<open>main_async\<close> returns, through the \<open>Failed to start recording.\<close>
  branch exactly when \<open>start\<close> returned \<open>False\<close>, and the status is 0 either
  way.
\<close>

theorem cli_exit_status:
  assumes "construct env = Returns ()" and "create_handles env = Returns ()"
    and "stdout env = Returns ()"
    and "interrupt env = NoInterrupt \<or> interrupt env = CaughtInSleep"
  shows "\<exists>r. main_async env a = Inr r \<and>
     (r = FailedToStart) =
       (\<not> fst (start (during_start env) (uuid4 env)
                (snd (add_recorder (uuid4 env) (Some (arg_include_apps a))
                       (arg_recording_mode a) (Some (arg_visual_task a))
                       (init (arg_cache_file a)))))) \<and>
     main env (Parsed a) = 0"
proof -
  let ?r1 = "snd (add_recorder (uuid4 env) (Some (arg_include_apps a))
      (arg_recording_mode a) (Some (arg_visual_task a)) (init (arg_cache_file a)))"
  let ?r2 = "snd (start (during_start env) (uuid4 env) ?r1)"
  obtain c where "map_of (recorders ?r1) (uuid4 env) = Some c"
    using add_recorder_known by blast
  then obtain c' where "map_of (recorders ?r2) (uuid4 env) = Some c'"
    using start_keeps_known by blast
  then obtain r3 where "stop (during_stop env) (uuid4 env) ?r2 = Inr r3"
    using stop_known_returns by blast
  then show ?thesis using assms
    by (auto simp: main_def main_async_def Let_def case_prod_beta add_recorder_fst)
qed

text \<open>A run in which every call returns.\<close>

theorem cli_exit_status_witness:
  "construct cli_all_return = Returns () \<and> create_handles cli_all_return = Returns () \<and>
   stdout cli_all_return = Returns () \<and> interrupt cli_all_return = NoInterrupt \<and>
   main_async cli_all_return sample_args = Inr Completed \<and>
   main cli_all_return (Parsed sample_args) = 0"
proof -
  have h: "construct cli_all_return = Returns ()" "create_handles cli_all_return = Returns ()"
    "stdout cli_all_return = Returns ()"
    "interrupt cli_all_return = NoInterrupt \<or> interrupt cli_all_return = CaughtInSleep"
    by (simp_all add: cli_all_return_def)
  have n: "interrupt cli_all_return = NoInterrupt" by (simp add: cli_all_return_def)
  have m: "main_async cli_all_return sample_args = Inr Completed"
    by (simp add: main_async_def cli_all_return_def sample_args_def all_return_def
      init_def add_recorder_def start_def stop_def set_config_def)
  show ?thesis using cli_exit_status [OF h, of sample_args] h n m by simp
qed

text \<open>The claim as stated fails: the capture stream refuses to start, \<open>main_async\<close>
  takes the \<open>Failed to start recording.\<close> return, and the status is 0.\<close>

theorem failed_start_exits_zero:
  "main_async cli_capture_refuses sample_args = Inr FailedToStart \<and>
   main cli_capture_refuses (Parsed sample_args) = 0"
  by (simp add: main_def main_async_def cli_capture_refuses_def sample_args_def all_return_def
      capture_refuses_def init_def add_recorder_def start_def stop_def set_config_def)

end
